theory Spec2Isabelle
  imports Main "HOL-Library.Word" "HOL-Library.Sublist"
begin

unbundle bit_operations_syntax

text \<open>
  A model of the Vulkan start-up program of the repository and proofs about it. The
  repository holds two checkpoints of the same walkthrough. The later one adds the
  selection of a physical device and the creation of the logical device; the class
  \<^verbatim>\<open>VDeleter\<close>, \<^verbatim>\<open>checkValidationLayerSupport\<close>, \<^verbatim>\<open>debugCallback\<close>, \<^verbatim>\<open>createInstance\<close> and
  \<^verbatim>\<open>setupDebugCallback\<close> are the same text in both. The model follows the later
  checkpoint. The definitions come first, the properties after them.
\<close>

section \<open>Opaque handles\<close>

text \<open>
  Every Vulkan object the program touches (\<^verbatim>\<open>VkInstance\<close>, \<^verbatim>\<open>VkDevice\<close>,
  \<^verbatim>\<open>VkPhysicalDevice\<close>, \<^verbatim>\<open>VkDebugReportCallbackEXT\<close>, \<^verbatim>\<open>VkQueue\<close>) is an opaque
  handle: a pointer or a 64-bit integer. The program only stores handles, compares them
  and passes them on, so one 64-bit word type stands for all of them. The header's
  \<^verbatim>\<open>VK_NULL_HANDLE\<close> is 0.
\<close>

type_synonym handle = "64 word"

definition VK_NULL_HANDLE :: handle where
  "VK_NULL_HANDLE = 0"

section \<open>The scoped handle \<^verbatim>\<open>VDeleter<T>\<close>\<close>

text \<open>
  \<^verbatim>\<open>T object{ VK_NULL_HANDLE }; std::function<void(T)> deleter;\<close>

  The deleter is a procedure with an effect on the outside world and no result. It is
  modelled as a transformer of a world \<open>'w\<close>; every operation of the class passes the
  world along.
\<close>

record 'w VDeleter =
  object :: handle
  deleter :: "handle \<Rightarrow> 'w \<Rightarrow> 'w"

text \<open>
  \<^verbatim>\<open>VDeleter(std::function<void(T, VkAllocationCallbacks*)> deletef)\<close>: the bound deleter
  calls \<^verbatim>\<open>deletef(obj, nullptr)\<close>; the allocator argument is always \<^verbatim>\<open>nullptr\<close> and is
  left out. The default constructor binds a function that does nothing.
\<close>

definition VDeleter_of :: "(handle \<Rightarrow> 'w \<Rightarrow> 'w) \<Rightarrow> 'w VDeleter" where
  "VDeleter_of deletef = \<lparr>object = VK_NULL_HANDLE, deleter = (\<lambda>obj. deletef obj)\<rparr>"

definition VDeleter_default :: "'w VDeleter" where
  "VDeleter_default = VDeleter_of (\<lambda>obj w. w)"

text \<open>
  \<^verbatim>\<open>void cleanup() { if (object != VK_NULL_HANDLE) { deleter(object); } object = VK_NULL_HANDLE; }\<close>
\<close>

definition cleanup :: "'w VDeleter \<Rightarrow> 'w \<Rightarrow> 'w VDeleter \<times> 'w" where
  "cleanup d w =
     (let w' = (if object d \<noteq> VK_NULL_HANDLE then deleter d (object d) w else w)
      in (d\<lparr>object := VK_NULL_HANDLE\<rparr>, w'))"

text \<open>\<^verbatim>\<open>~VDeleter() { cleanup(); }\<close>\<close>

definition destroy :: "'w VDeleter \<Rightarrow> 'w \<Rightarrow> 'w VDeleter \<times> 'w" where
  "destroy d w = cleanup d w"

text \<open>
  \<^verbatim>\<open>T* replace() { cleanup(); return &object; }\<close>

  The returned pointer is the address of the field \<open>object\<close> of the handle that
  \<open>replace\<close> returns: reading the slot is reading that field (\<open>slot_read\<close>), and a
  write through it by the callee of the out-parameter idiom is \<open>slot_write\<close>.
\<close>

definition replace :: "'w VDeleter \<Rightarrow> 'w \<Rightarrow> 'w VDeleter \<times> 'w" where
  "replace d w = cleanup d w"

definition slot_read :: "'w VDeleter \<Rightarrow> handle" where
  "slot_read d = object d"

definition slot_write :: "handle \<Rightarrow> 'w VDeleter \<Rightarrow> 'w VDeleter" where
  "slot_write v d = d\<lparr>object := v\<rparr>"

text \<open>\<^verbatim>\<open>operator T() const { return object; }\<close>\<close>

definition get :: "'w VDeleter \<Rightarrow> handle" where
  "get d = object d"

text \<open>
  \<^verbatim>\<open>void operator=(T rhs) { if (rhs != object) { cleanup(); object = rhs; } }\<close>
\<close>

definition assign :: "handle \<Rightarrow> 'w VDeleter \<Rightarrow> 'w \<Rightarrow> 'w VDeleter \<times> 'w" where
  "assign rhs d w =
     (if rhs \<noteq> object d
      then (let (d', w') = cleanup d w in (d'\<lparr>object := rhs\<rparr>, w'))
      else (d, w))"

text \<open>\<^verbatim>\<open>bool operator==(V rhs) { return object == T(rhs); }\<close>\<close>

definition equals :: "'w VDeleter \<Rightarrow> handle \<Rightarrow> bool" where
  "equals d rhs \<longleftrightarrow> object d = rhs"

subsection \<open>Sequences of operations on one handle\<close>

text \<open>
  The operations a client can apply to a handle: an assignment, a \<open>replace()\<close> whose
  caller then writes a value through the returned slot (\<open>Some v\<close>) or leaves the slot
  alone (\<open>None\<close>), and the destructor.
\<close>

datatype vop = Assign handle | Replace "handle option" | Destroy

fun step :: "vop \<Rightarrow> 'w VDeleter \<times> 'w \<Rightarrow> 'w VDeleter \<times> 'w" where
  "step (Assign v) (d, w) = assign v d w"
| "step (Replace None) (d, w) = replace d w"
| "step (Replace (Some v)) (d, w) = (let (d', w') = replace d w in (slot_write v d', w'))"
| "step Destroy (d, w) = destroy d w"

fun run_ops :: "vop list \<Rightarrow> 'w VDeleter \<times> 'w \<Rightarrow> 'w VDeleter \<times> 'w" where
  "run_ops [] s = s"
| "run_ops (x # xs) s = run_ops xs (step x s)"

text \<open>
  A release function that only records the value it is called with: the world is the
  list of the values released so far, oldest first.
\<close>

definition record_release :: "handle \<Rightarrow> handle list \<Rightarrow> handle list" where
  "record_release obj w = w @ [obj]"

text \<open>The values an operation stores into the handle.\<close>

fun stored :: "vop \<Rightarrow> handle list" where
  "stored (Assign v) = [v]"
| "stored (Replace (Some v)) = [v]"
| "stored (Replace None) = []"
| "stored Destroy = []"

definition live :: "'w VDeleter \<Rightarrow> handle list" where
  "live d = (if object d \<noteq> VK_NULL_HANDLE then [object d] else [])"

definition non_null :: "handle list \<Rightarrow> handle list" where
  "non_null vs = filter (\<lambda>v. v \<noteq> VK_NULL_HANDLE) vs"

section \<open>Queue families\<close>

text \<open>
  \<^verbatim>\<open>VkQueueFamilyProperties\<close> comes from the Vulkan header: flags and counts are
  \<^verbatim>\<open>uint32_t\<close>, the granularity is three \<^verbatim>\<open>uint32_t\<close>. The capability bits are the
  header's \<^verbatim>\<open>VK_QUEUE_GRAPHICS_BIT = 0x1\<close> and \<^verbatim>\<open>VK_QUEUE_COMPUTE_BIT = 0x2\<close>.
\<close>

record VkQueueFamilyProperties =
  queueFlags :: "32 word"
  queueCount :: "32 word"
  timestampValidBits :: "32 word"
  minImageTransferGranularity :: "32 word \<times> 32 word \<times> 32 word"

definition VK_QUEUE_GRAPHICS_BIT :: "32 word" where
  "VK_QUEUE_GRAPHICS_BIT = 1"

definition VK_QUEUE_COMPUTE_BIT :: "32 word" where
  "VK_QUEUE_COMPUTE_BIT = 2"

text \<open>
  \<^verbatim>\<open>struct QueueFamilyIndices { int graphicsFamily = -1; bool isComplete() { return graphicsFamily >= 0; } };\<close>

  The C++ \<^verbatim>\<open>int\<close> is modelled by \<open>int\<close>: the only arithmetic on it is the loop counter of
  \<open>findQueueFamilies\<close>, which stays below the length of the family list. The two agree
  while that length is below \<open>2 ^ 31\<close>; beyond it the C++ counter would overflow, which
  the language leaves undefined.
\<close>

record QueueFamilyIndices =
  graphicsFamily :: int

definition QueueFamilyIndices_init :: QueueFamilyIndices where
  "QueueFamilyIndices_init = \<lparr>graphicsFamily = - 1\<rparr>"

definition isComplete :: "QueueFamilyIndices \<Rightarrow> bool" where
  "isComplete indices \<longleftrightarrow> graphicsFamily indices \<ge> 0"

text \<open>
  The condition of the \<^verbatim>\<open>if\<close> in the loop of \<open>findQueueFamilies\<close>:
  \<^verbatim>\<open>queueFamily.queueCount > 0 && queueFamily.queueFlags & VK_QUEUE_GRAPHICS_BIT\<close>.
  In C++ \<^verbatim>\<open>&\<close> binds tighter than \<^verbatim>\<open>&&\<close>, and the masked value converts to
  \<^verbatim>\<open>bool\<close> by comparison with 0.
\<close>

definition supportsGraphics :: "VkQueueFamilyProperties \<Rightarrow> bool" where
  "supportsGraphics queueFamily \<longleftrightarrow>
     queueCount queueFamily > 0 \<and> (queueFlags queueFamily AND VK_QUEUE_GRAPHICS_BIT) \<noteq> 0"

text \<open>
  The range-based \<^verbatim>\<open>for\<close> of \<open>findQueueFamilies\<close>, with its counter \<open>i\<close> and the
  record \<open>indices\<close> as loop state:
  \<^verbatim>\<open>
  if (queueFamily.queueCount > 0 && queueFamily.queueFlags & VK_QUEUE_GRAPHICS_BIT) {
      indices.graphicsFamily = i;
  }
  if (indices.isComplete()) { break; }
  i++;
  \<close>
\<close>

fun findQueueFamilies_loop ::
  "VkQueueFamilyProperties list \<Rightarrow> int \<Rightarrow> QueueFamilyIndices \<Rightarrow> QueueFamilyIndices" where
  "findQueueFamilies_loop [] i indices = indices"
| "findQueueFamilies_loop (queueFamily # rest) i indices =
     (let indices1 = (if supportsGraphics queueFamily
                      then indices\<lparr>graphicsFamily := i\<rparr> else indices)
      in if isComplete indices1 then indices1
         else findQueueFamilies_loop rest (i + 1) indices1)"

text \<open>
  \<open>findQueueFamilies(device)\<close>. The two calls of
  \<^verbatim>\<open>vkGetPhysicalDeviceQueueFamilyProperties\<close> (count, then fetch) are a query of the
  driver; the parameter \<open>qf\<close> is what the driver reports for each device. This is the
  value the function returns; that the driver was asked is recorded where the function
  runs in a state of the application (\<open>findQueueFamilies_call\<close> below).
\<close>

definition findQueueFamilies ::
  "(handle \<Rightarrow> VkQueueFamilyProperties list) \<Rightarrow> handle \<Rightarrow> QueueFamilyIndices" where
  "findQueueFamilies qf device = findQueueFamilies_loop (qf device) 0 QueueFamilyIndices_init"

text \<open>
  \<^verbatim>\<open>bool isDeviceSuitable(VkPhysicalDevice device) { QueueFamilyIndices indices = findQueueFamilies(device); return indices.isComplete(); }\<close>
  (the checks of device type and features are inside a comment in the source).
\<close>

definition isDeviceSuitable ::
  "(handle \<Rightarrow> VkQueueFamilyProperties list) \<Rightarrow> handle \<Rightarrow> bool" where
  "isDeviceSuitable qf device = isComplete (findQueueFamilies qf device)"

section \<open>Validation layers\<close>

text \<open>
  A C string is modelled by the list of its characters before the terminating NUL.
  \<^verbatim>\<open>strcmp\<close> compares two of them as sequences of unsigned bytes.
\<close>

fun strcmp :: "string \<Rightarrow> string \<Rightarrow> int" where
  "strcmp [] [] = 0"
| "strcmp [] (y # ys) = - 1"
| "strcmp (x # xs) [] = 1"
| "strcmp (x # xs) (y # ys) =
     (if x = y then strcmp xs ys
      else if (of_char x :: nat) < of_char y then - 1 else 1)"

definition validationLayers :: "string list" where
  "validationLayers = [''VK_LAYER_LUNARG_standard_validation'']"

text \<open>
  The inner loop of \<open>checkValidationLayerSupport\<close>:
  \<^verbatim>\<open>
  bool layerFound = false;
  for (const auto& layerProperties : availableLayers) {
      if (strcmp(layerName, layerProperties.layerName) == 0) { layerFound = true; break; }
  }
  \<close>
\<close>

fun layerFound :: "string \<Rightarrow> string list \<Rightarrow> bool" where
  "layerFound layerName [] = False"
| "layerFound layerName (layerProperties # rest) =
     (if strcmp layerName layerProperties = 0 then True else layerFound layerName rest)"

text \<open>
  The outer loop, \<^verbatim>\<open>for (const char* layerName : validationLayers)\<close>, with
  \<^verbatim>\<open>if (!layerFound) { return false; }\<close> in its body and \<^verbatim>\<open>return true;\<close> after it.
  The list of required names is the global \<open>validationLayers\<close> in the program; it is a
  parameter here. The second argument is the list \<open>availableLayers\<close> that
  \<^verbatim>\<open>vkEnumerateInstanceLayerProperties\<close> fills.
\<close>

fun checkValidationLayerSupport :: "string list \<Rightarrow> string list \<Rightarrow> bool" where
  "checkValidationLayerSupport [] availableLayers = True"
| "checkValidationLayerSupport (layerName # rest) availableLayers =
     (if \<not> layerFound layerName availableLayers then False
      else checkValidationLayerSupport rest availableLayers)"

section \<open>The debug callback\<close>

text \<open>
  \<^verbatim>\<open>std::cerr << "validation layer: " << msg << std::endl; return VK_FALSE;\<close>

  \<^verbatim>\<open>VkBool32\<close> is \<^verbatim>\<open>uint32_t\<close> and \<^verbatim>\<open>VK_FALSE\<close> is 0. The standard error stream is
  the list of the lines written to it. The callback returns the line it writes and its
  result. The two strings the driver passes are valid C strings; \<open>userData\<close> is an
  address.
\<close>

definition VK_FALSE :: "32 word" where
  "VK_FALSE = 0"

definition debugCallback ::
  "32 word \<Rightarrow> 32 word \<Rightarrow> 64 word \<Rightarrow> 64 word \<Rightarrow> 32 word \<Rightarrow> string \<Rightarrow> string \<Rightarrow> 64 word
     \<Rightarrow> string list \<Rightarrow> string list \<times> 32 word" where
  "debugCallback flags objType obj location code layerPrefix msg userData cerr0 =
     (cerr0 @ [''validation layer: '' @ msg], VK_FALSE)"

section \<open>The application\<close>

subsection \<open>The outside world\<close>

text \<open>
  \<^verbatim>\<open>VkResult\<close> is a C enumeration; the program only compares results with
  \<^verbatim>\<open>VK_SUCCESS\<close> (0) and returns \<^verbatim>\<open>VK_ERROR_EXTENSION_NOT_PRESENT\<close> (-7) itself.
\<close>

type_synonym VkResult = int

definition VK_SUCCESS :: VkResult where
  "VK_SUCCESS = 0"

definition VK_ERROR_EXTENSION_NOT_PRESENT :: VkResult where
  "VK_ERROR_EXTENSION_NOT_PRESENT = - 7"

text \<open>
  What the driver and the window library answer during one execution. A creation call
  gives its result and the value it leaves in the slot it was handed.
  \<open>enableValidationLayers\<close> is the global constant of that name, \<^verbatim>\<open>false\<close> exactly
  when the program is compiled with \<^verbatim>\<open>NDEBUG\<close>. \<open>glfwWindowShouldClose env k\<close> is the
  answer to the \<open>k\<close>-th poll of the main loop.
\<close>

record env =
  enableValidationLayers :: bool
  instanceExtensionProperties :: "string list"
  instanceLayerProperties :: "string list"
  glfwRequiredInstanceExtensions :: "string list"
  vkCreateInstance_result :: "VkResult \<times> handle"
  vkGetInstanceProcAddr :: "handle \<Rightarrow> string \<Rightarrow> bool"
  vkCreateDebugReportCallbackEXT_result :: "VkResult \<times> handle"
  physicalDevices :: "handle \<Rightarrow> handle list"
  queueFamilyProperties :: "handle \<Rightarrow> VkQueueFamilyProperties list"
  vkCreateDevice_result :: "handle \<Rightarrow> VkResult \<times> handle"
  vkGetDeviceQueue_result :: "handle \<Rightarrow> 32 word \<Rightarrow> handle"
  glfwWindowShouldClose :: "nat \<Rightarrow> bool"

text \<open>
  The calls that create, release or fetch an object, in the order they are made. The two
  \<open>Proxy\<close> events are the entries into the program's own functions
  \<^verbatim>\<open>CreateDebugReportCallbackEXT\<close> and \<^verbatim>\<open>DestroyDebugReportCallbackEXT\<close>; the driver's
  functions they look up are the events without the prefix.
\<close>

datatype vk_call =
    VkCreateInstance "string list" "string list"
  | VkDestroyInstance handle
  | ProxyCreateDebugReportCallbackEXT handle
  | VkCreateDebugReportCallbackEXT handle
  | ProxyDestroyDebugReportCallbackEXT handle handle
  | VkDestroyDebugReportCallbackEXT handle handle
  | VkCreateDevice handle "32 word" "string list"
  | VkDestroyDevice handle
  | VkGetDeviceQueue handle "32 word"

text \<open>
  The members of \<open>HelloTriangleApplication\<close> and the world around it. The three
  \<open>VDeleter\<close> members are stored by their field \<open>object\<close>; their deleters are fixed
  by the member initialisers (\<open>member_deleter\<close> below). \<open>graphicsQueue\<close> has no
  initialiser, so it holds no value until \<open>createLogicalDevice\<close> writes it. The window
  pointer is only handed back to the window library and is left out. \<open>queried\<close> is
  the record of the driver's queries about a device: one entry, the device, for each
  call of \<^verbatim>\<open>vkGetPhysicalDeviceQueueFamilyProperties\<close>, oldest first.
\<close>

record state =
  instance_object :: handle
  callback_object :: handle
  physicalDevice :: handle
  device_object :: handle
  graphicsQueue :: "handle option"
  calls :: "vk_call list"
  queried :: "handle list"
  cerr :: "string list"
  cout :: "string list"

definition app_init :: state where
  "app_init = \<lparr>instance_object = VK_NULL_HANDLE, callback_object = VK_NULL_HANDLE,
     physicalDevice = VK_NULL_HANDLE, device_object = VK_NULL_HANDLE,
     graphicsQueue = None, calls = [], queried = [], cerr = [], cout = []\<rparr>"

definition emit :: "vk_call \<Rightarrow> state \<Rightarrow> state" where
  "emit c s = s\<lparr>calls := calls s @ [c]\<rparr>"

text \<open>
  \<^verbatim>\<open>
  VkResult CreateDebugReportCallbackEXT(instance, pCreateInfo, pAllocator, pCallback) {
      auto func = (...)vkGetInstanceProcAddr(instance, "vkCreateDebugReportCallbackEXT");
      if (func != nullptr) { return func(instance, pCreateInfo, pAllocator, pCallback); }
      else { return VK_ERROR_EXTENSION_NOT_PRESENT; }
  }
  \<close>
  The second component of the result is the value of \<^verbatim>\<open>*pCallback\<close> on return, given
  its value \<open>slot\<close> on entry.
\<close>

definition CreateDebugReportCallbackEXT ::
  "env \<Rightarrow> handle \<Rightarrow> handle \<Rightarrow> state \<Rightarrow> (VkResult \<times> handle) \<times> state" where
  "CreateDebugReportCallbackEXT e inst slot s =
     (let s1 = emit (ProxyCreateDebugReportCallbackEXT inst) s
      in if vkGetInstanceProcAddr e inst ''vkCreateDebugReportCallbackEXT''
         then (vkCreateDebugReportCallbackEXT_result e, emit (VkCreateDebugReportCallbackEXT inst) s1)
         else ((VK_ERROR_EXTENSION_NOT_PRESENT, slot), s1))"

text \<open>
  \<^verbatim>\<open>
  void DestroyDebugReportCallbackEXT(instance, callback, pAllocator) {
      auto func = (...)vkGetInstanceProcAddr(instance, "vkDestroyDebugReportCallbackEXT");
      if (func != nullptr) { func(instance, callback, pAllocator); }
  }
  \<close>
\<close>

definition DestroyDebugReportCallbackEXT :: "env \<Rightarrow> handle \<Rightarrow> handle \<Rightarrow> state \<Rightarrow> state" where
  "DestroyDebugReportCallbackEXT e inst callback s =
     (let s1 = emit (ProxyDestroyDebugReportCallbackEXT inst callback) s
      in if vkGetInstanceProcAddr e inst ''vkDestroyDebugReportCallbackEXT''
         then emit (VkDestroyDebugReportCallbackEXT inst callback) s1
         else s1)"

subsection \<open>The scoped members\<close>

text \<open>
  In declaration order:
  \<^verbatim>\<open>
  VDeleter<VkInstance> instance{ vkDestroyInstance };
  VDeleter<VkDebugReportCallbackEXT> callback{ instance, DestroyDebugReportCallbackEXT };
  VkPhysicalDevice physicalDevice = VK_NULL_HANDLE;
  VDeleter<VkDevice> device{ vkDestroyDevice };
  VkQueue graphicsQueue;
  \<close>
  Only the three \<open>VDeleter\<close> members have a destructor that does anything.
\<close>

datatype member = M_instance | M_callback | M_device

definition declared_members :: "member list" where
  "declared_members = [M_instance, M_callback, M_device]"

fun member_object :: "member \<Rightarrow> state \<Rightarrow> handle" where
  "member_object M_instance s = instance_object s"
| "member_object M_callback s = callback_object s"
| "member_object M_device s = device_object s"

fun member_update :: "member \<Rightarrow> handle \<Rightarrow> state \<Rightarrow> state" where
  "member_update M_instance v s = s\<lparr>instance_object := v\<rparr>"
| "member_update M_callback v s = s\<lparr>callback_object := v\<rparr>"
| "member_update M_device v s = s\<lparr>device_object := v\<rparr>"

text \<open>
  The deleter each constructor binds. The one of \<open>callback\<close> is
  \<^verbatim>\<open>[&instance, deletef](T obj) { deletef(instance, obj, nullptr); }\<close>: it holds a
  reference to the member \<open>instance\<close> and converts it to \<^verbatim>\<open>VkInstance\<close> when it runs,
  so it reads \<open>instance_object\<close> from the state it is applied to.
\<close>

fun member_deleter :: "env \<Rightarrow> member \<Rightarrow> handle \<Rightarrow> state \<Rightarrow> state" where
  "member_deleter e M_instance obj s = emit (VkDestroyInstance obj) s"
| "member_deleter e M_callback obj s = DestroyDebugReportCallbackEXT e (instance_object s) obj s"
| "member_deleter e M_device obj s = emit (VkDestroyDevice obj) s"

definition member_view :: "env \<Rightarrow> member \<Rightarrow> state \<Rightarrow> state VDeleter" where
  "member_view e m s = \<lparr>object = member_object m s, deleter = member_deleter e m\<rparr>"

text \<open>Applying an operation of \<open>VDeleter\<close> to a member and storing the member back.\<close>

definition on_member ::
  "env \<Rightarrow> member \<Rightarrow> (state VDeleter \<Rightarrow> state \<Rightarrow> state VDeleter \<times> state) \<Rightarrow> state \<Rightarrow> state" where
  "on_member e m f s = (let (d', s') = f (member_view e m s) s in member_update m (object d') s')"

text \<open>
  The implicit destructor of \<open>HelloTriangleApplication\<close>: C++ destroys the members in
  the reverse of their declaration order.
\<close>

definition app_destroy :: "env \<Rightarrow> state \<Rightarrow> state" where
  "app_destroy e s = foldl (\<lambda>s m. on_member e m destroy s) s (rev declared_members)"

subsection \<open>Initialisation\<close>

text \<open>
  Every failure of the program is \<^verbatim>\<open>throw std::runtime_error(what)\<close>. A member function
  returns \<open>None\<close> when it returns normally and \<open>Some\<close> of the exception when it throws,
  together with the state it leaves: the application object lives in \<open>main\<close>, outside
  the \<^verbatim>\<open>try\<close> block, and keeps what was done before the throw.
\<close>

datatype runtime_error = Runtime_error string

type_synonym outcome = "runtime_error option \<times> state"

definition and_then :: "outcome \<Rightarrow> (state \<Rightarrow> outcome) \<Rightarrow> outcome" where
  "and_then r f = (case r of (None, s) \<Rightarrow> f s | (Some x, s) \<Rightarrow> (Some x, s))"

text \<open>
  \<open>getRequiredExtensions\<close>: the extensions the window library asks for, then
  \<^verbatim>\<open>VK_EXT_DEBUG_REPORT_EXTENSION_NAME\<close> (the header's \<^verbatim>\<open>"VK_EXT_debug_report"\<close>) when
  validation is enabled.
\<close>

definition getRequiredExtensions :: "env \<Rightarrow> string list" where
  "getRequiredExtensions e =
     glfwRequiredInstanceExtensions e @
     (if enableValidationLayers e then [''VK_EXT_debug_report''] else [])"

text \<open>
  \<open>createInstance\<close>. The listing of extensions is compiled in exactly when \<^verbatim>\<open>NDEBUG\<close>
  is not defined. \<^verbatim>\<open>instance.replace()\<close> is evaluated as an argument, before
  \<^verbatim>\<open>vkCreateInstance\<close> runs and writes the slot.
\<close>

definition createInstance :: "env \<Rightarrow> state \<Rightarrow> outcome" where
  "createInstance e s =
     (let s1 = (if enableValidationLayers e
                then s\<lparr>cout := cout s @ ''available extensions:'' #
                       map (\<lambda>n. CHR 0x09 # n) (instanceExtensionProperties e)\<rparr>
                else s)
      in if enableValidationLayers e \<and>
            \<not> checkValidationLayerSupport validationLayers (instanceLayerProperties e)
         then (Some (Runtime_error ''validation layers requested, but not available!''), s1)
         else
           (let extensions = getRequiredExtensions e;
                layers = (if enableValidationLayers e then validationLayers else []);
                s2 = on_member e M_instance replace s1;
                (res, out) = vkCreateInstance_result e;
                s3 = (emit (VkCreateInstance extensions layers) s2)\<lparr>instance_object := out\<rparr>
            in if res \<noteq> VK_SUCCESS
               then (Some (Runtime_error ''failed to create instance!''), s3)
               else (None, s3)))"

text \<open>
  \<open>setupDebugCallback\<close>:
  \<^verbatim>\<open>
  if (!enableValidationLayers) return;
  ...
  if (CreateDebugReportCallbackEXT(instance, &createInfo, nullptr, callback.replace()) != VK_SUCCESS) {
      throw std::runtime_error("failed to set up debug callback!");
  }
  \<close>
\<close>

definition setupDebugCallback :: "env \<Rightarrow> state \<Rightarrow> outcome" where
  "setupDebugCallback e s =
     (if \<not> enableValidationLayers e then (None, s)
      else
        (let s1 = on_member e M_callback replace s;
             ((res, out), s2) =
                CreateDebugReportCallbackEXT e (instance_object s1) (callback_object s1) s1;
             s3 = s2\<lparr>callback_object := out\<rparr>
         in if res \<noteq> VK_SUCCESS
            then (Some (Runtime_error ''failed to set up debug callback!''), s3)
            else (None, s3)))"

text \<open>
  One call of \<^verbatim>\<open>vkGetPhysicalDeviceQueueFamilyProperties(device, ...)\<close>, as the world
  sees it: the driver is asked about \<open>device\<close>.
\<close>

definition vkGetPhysicalDeviceQueueFamilyProperties :: "handle \<Rightarrow> state \<Rightarrow> state" where
  "vkGetPhysicalDeviceQueueFamilyProperties device s = s\<lparr>queried := queried s @ [device]\<rparr>"

text \<open>
  The member functions \<open>findQueueFamilies\<close> and \<open>isDeviceSuitable\<close> as they run
  inside the application. \<open>findQueueFamilies\<close> asks the driver twice (for the count,
  then for the families) and scans what it was given: its result is
  \<open>findQueueFamilies\<close> above at the driver's answer, and the state records the two
  queries. \<open>isDeviceSuitable\<close> calls it and tests the result.
\<close>

definition findQueueFamilies_call ::
  "env \<Rightarrow> handle \<Rightarrow> state \<Rightarrow> QueueFamilyIndices \<times> state" where
  "findQueueFamilies_call e device s =
     (let s1 = vkGetPhysicalDeviceQueueFamilyProperties device s;
          s2 = vkGetPhysicalDeviceQueueFamilyProperties device s1
      in (findQueueFamilies (queueFamilyProperties e) device, s2))"

definition isDeviceSuitable_call :: "env \<Rightarrow> handle \<Rightarrow> state \<Rightarrow> bool \<times> state" where
  "isDeviceSuitable_call e device s =
     (case findQueueFamilies_call e device s of (indices, s1) \<Rightarrow> (isComplete indices, s1))"

text \<open>
  The loop of \<open>pickPhysicalDevice\<close>:
  \<^verbatim>\<open>for (const auto& device : devices) { if (isDeviceSuitable(device)) { physicalDevice = device; break; } }\<close>
\<close>

fun pickPhysicalDevice_loop :: "env \<Rightarrow> handle list \<Rightarrow> state \<Rightarrow> state" where
  "pickPhysicalDevice_loop e [] s = s"
| "pickPhysicalDevice_loop e (device # rest) s =
     (case isDeviceSuitable_call e device s of
        (suitable, s1) \<Rightarrow>
          if suitable then s1\<lparr>physicalDevice := device\<rparr>
          else pickPhysicalDevice_loop e rest s1)"

text \<open>
  \<open>pickPhysicalDevice\<close>: \<^verbatim>\<open>deviceCount\<close> is the length of the enumeration; the vector
  \<open>devices\<close> is the enumeration of the second call.
\<close>

definition pickPhysicalDevice :: "env \<Rightarrow> state \<Rightarrow> outcome" where
  "pickPhysicalDevice e s =
     (let devices = physicalDevices e (instance_object s)
      in if length devices = 0
         then (Some (Runtime_error ''failed to find GPUs with Vilkan support!''), s)
         else
           (let s1 = pickPhysicalDevice_loop e devices s
            in if physicalDevice s1 = VK_NULL_HANDLE
               then (Some (Runtime_error ''no Vulkan supporting GPU can do what you need!''), s1)
               else (None, s1)))"

text \<open>
  \<open>createLogicalDevice\<close>. \<^verbatim>\<open>queueCreateInfo.queueFamilyIndex = indices.graphicsFamily\<close>
  converts the \<^verbatim>\<open>int\<close> to \<^verbatim>\<open>uint32_t\<close>.
\<close>

definition createLogicalDevice :: "env \<Rightarrow> state \<Rightarrow> outcome" where
  "createLogicalDevice e s =
     (let (indices, s0) = findQueueFamilies_call e (physicalDevice s) s;
          family = (word_of_int (graphicsFamily indices) :: 32 word);
          layers = (if enableValidationLayers e then validationLayers else []);
          s1 = on_member e M_device replace s0;
          (res, out) = vkCreateDevice_result e (physicalDevice s1);
          s2 = (emit (VkCreateDevice (physicalDevice s1) family layers) s1)\<lparr>device_object := out\<rparr>
      in if res \<noteq> VK_SUCCESS
         then (Some (Runtime_error ''failed to create logical device!''), s2)
         else (None, (emit (VkGetDeviceQueue (device_object s2) family) s2)
                 \<lparr>graphicsQueue := Some (vkGetDeviceQueue_result e (device_object s2) family)\<rparr>))"

text \<open>
  \<^verbatim>\<open>void initVulkan() { createInstance(); setupDebugCallback(); pickPhysicalDevice(); createLogicalDevice(); }\<close>
\<close>

definition initVulkan :: "env \<Rightarrow> state \<Rightarrow> outcome" where
  "initVulkan e s =
     and_then (and_then (and_then (createInstance e s) (setupDebugCallback e))
       (pickPhysicalDevice e)) (createLogicalDevice e)"

subsection \<open>The main loop and \<open>main\<close>\<close>

text \<open>
  \<^verbatim>\<open>while (!glfwWindowShouldClose(window)) { glfwPollEvents(); }\<close>

  The loop ends when the window library says so, which may be never: the result is
  \<open>None\<close> when it does not end. Window creation, event polling and the destruction of
  the window change nothing of the state modelled here.
\<close>

partial_function (option) mainLoop :: "env \<Rightarrow> nat \<Rightarrow> state \<Rightarrow> state option" where
  "mainLoop e k s = (if glfwWindowShouldClose e k then Some s else mainLoop e (Suc k) s)"

definition initWindow :: "state \<Rightarrow> state" where
  "initWindow s = s"

text \<open>\<^verbatim>\<open>void run() { initWindow(); initVulkan(); mainLoop(); }\<close>\<close>

definition run :: "env \<Rightarrow> state \<Rightarrow> outcome option" where
  "run e s =
     (case initVulkan e (initWindow s) of
        (Some x, s1) \<Rightarrow> Some (Some x, s1)
      | (None, s1) \<Rightarrow> (case mainLoop e 0 s1 of None \<Rightarrow> None | Some s2 \<Rightarrow> Some (None, s2)))"

text \<open>
  \<^verbatim>\<open>
  int main() {
      HelloTriangleApplication app;
      try { app.run(); }
      catch (const std::runtime_error& e) { std::cerr << e.what() << std::endl; return EXIT_FAILURE; }
      return EXIT_SUCCESS;
  }
  \<close>
  \<open>app\<close> is destroyed when \<open>main\<close> returns, on either path. The result is the final
  state of the world and the exit status; \<^verbatim>\<open>EXIT_SUCCESS\<close> and \<^verbatim>\<open>EXIT_FAILURE\<close> are
  the C library's 0 and 1.
\<close>

definition EXIT_SUCCESS :: int where
  "EXIT_SUCCESS = 0"

definition EXIT_FAILURE :: int where
  "EXIT_FAILURE = 1"

definition main :: "env \<Rightarrow> (state \<times> int) option" where
  "main e =
     (case run e app_init of
        None \<Rightarrow> None
      | Some (None, s) \<Rightarrow> Some (app_destroy e s, EXIT_SUCCESS)
      | Some (Some (Runtime_error what), s) \<Rightarrow>
          Some (app_destroy e (s\<lparr>cerr := cerr s @ [what]\<rparr>), EXIT_FAILURE))"

subsection \<open>A sample environment\<close>

text \<open>
  A machine for the worked examples: a debug build, the validation layer installed, a
  driver on which every creation succeeds, and three devices. Device 1 has a compute
  family only, device 2 a compute family and then a graphics family, device 3 a graphics
  family. The window closes at the third poll.
\<close>

definition family :: "32 word \<Rightarrow> 32 word \<Rightarrow> VkQueueFamilyProperties" where
  "family count flags = \<lparr>queueFlags = flags, queueCount = count, timestampValidBits = 0,
     minImageTransferGranularity = (1, 1, 1)\<rparr>"

definition sample_env :: env where
  "sample_env = \<lparr>
     enableValidationLayers = True,
     instanceExtensionProperties = [''VK_KHR_surface'', ''VK_EXT_debug_report''],
     instanceLayerProperties = [''VK_LAYER_LUNARG_standard_validation''],
     glfwRequiredInstanceExtensions = [''VK_KHR_surface''],
     vkCreateInstance_result = (VK_SUCCESS, 16),
     vkGetInstanceProcAddr = (\<lambda>inst name. True),
     vkCreateDebugReportCallbackEXT_result = (VK_SUCCESS, 32),
     physicalDevices = (\<lambda>inst. [1, 2, 3]),
     queueFamilyProperties = (\<lambda>device.
        if device = 1 then [family 2 VK_QUEUE_COMPUTE_BIT]
        else if device = 2 then [family 2 VK_QUEUE_COMPUTE_BIT, family 1 VK_QUEUE_GRAPHICS_BIT]
        else [family 1 VK_QUEUE_GRAPHICS_BIT]),
     vkCreateDevice_result = (\<lambda>device. (VK_SUCCESS, 48)),
     vkGetDeviceQueue_result = (\<lambda>device index. 64),
     glfwWindowShouldClose = (\<lambda>k. 2 \<le> k)\<rparr>"

section \<open>Properties of the scoped handle\<close>

lemma step_deleter: "deleter (fst (step x (d, w))) = deleter d"
  by (cases x rule: stored.cases)
     (simp_all add: assign_def replace_def destroy_def cleanup_def slot_write_def
        split: prod.splits)

lemma subseq_snoc_both: "subseq xs ys \<Longrightarrow> subseq (xs @ [v]) (ys @ [v])"
  by (rule list_emb_append_mono) simp_all

lemma cleanup_subseq:
  assumes "deleter d = record_release"
      and "subseq (w @ live d) p"
      and "cleanup d w = (d', w')"
    shows "subseq w' p \<and> object d' = VK_NULL_HANDLE \<and> deleter d' = deleter d"
  using assms by (auto simp: cleanup_def live_def record_release_def split: if_splits)

text \<open>
  One operation keeps the invariant: the values released so far, followed by the value
  held now if there is one, are a subsequence of the non-empty values stored so far.
\<close>

lemma step_subseq:
  assumes del: "deleter d = record_release"
      and inv: "subseq (w @ live d) (non_null pre)"
      and st: "step x (d, w) = (d', w')"
    shows "subseq (w' @ live d') (non_null (pre @ stored x))"
proof (cases x rule: stored.cases)
  case (1 v)
  show ?thesis
  proof (cases "v = object d")
    case True
    with 1 st have "d' = d" "w' = w" by (simp_all add: assign_def)
    with inv 1 show ?thesis by (simp add: non_null_def subseq_rev_drop_many)
  next
    case False
    obtain d1 w1 where c: "cleanup d w = (d1, w1)" by (cases "cleanup d w")
    from cleanup_subseq[OF del inv c] have s1: "subseq w1 (non_null pre)" by simp
    from 1 st False c have e: "d' = d1\<lparr>object := v\<rparr>" "w' = w1" by (simp_all add: assign_def)
    show ?thesis
    proof (cases "v = VK_NULL_HANDLE")
      case True
      with e s1 1 show ?thesis by (simp add: live_def non_null_def)
    next
      case False
      with e 1 subseq_snoc_both[OF s1, of v] show ?thesis by (simp add: live_def non_null_def)
    qed
  qed
next
  case (2 v)
  obtain d1 w1 where c: "cleanup d w = (d1, w1)" by (cases "cleanup d w")
  from cleanup_subseq[OF del inv c] have s1: "subseq w1 (non_null pre)" by simp
  from 2 st c have e: "d' = d1\<lparr>object := v\<rparr>" "w' = w1"
    by (simp_all add: replace_def slot_write_def)
  show ?thesis
  proof (cases "v = VK_NULL_HANDLE")
    case True
    with e s1 2 show ?thesis by (simp add: live_def non_null_def)
  next
    case False
    with e 2 subseq_snoc_both[OF s1, of v] show ?thesis by (simp add: live_def non_null_def)
  qed
next
  case 3
  with st have c: "cleanup d w = (d', w')" by (simp add: replace_def)
  from cleanup_subseq[OF del inv c] 3 show ?thesis by (simp add: live_def)
next
  case 4
  with st have c: "cleanup d w = (d', w')" by (simp add: destroy_def)
  from cleanup_subseq[OF del inv c] 4 show ?thesis by (simp add: live_def)
qed

lemma run_ops_subseq:
  "deleter d = record_release \<Longrightarrow> subseq (w @ live d) (non_null pre) \<Longrightarrow>
   run_ops xs (d, w) = (d', w') \<Longrightarrow>
   subseq (w' @ live d') (non_null (pre @ concat (map stored xs)))"
proof (induction xs arbitrary: d w pre)
  case Nil
  then show ?case by simp
next
  case (Cons x xs)
  obtain d1 w1 where s: "step x (d, w) = (d1, w1)" by (cases "step x (d, w)")
  have del: "deleter d1 = record_release" using step_deleter[of x d w] s Cons.prems(1) by simp
  have "subseq (w1 @ live d1) (non_null (pre @ stored x))"
    using step_subseq[OF Cons.prems(1) Cons.prems(2) s] .
  from Cons.IH[OF del this] Cons.prems(3) s show ?case by simp
qed

lemma run_ops_no_null:
  "deleter d = record_release \<Longrightarrow> VK_NULL_HANDLE \<notin> set w \<Longrightarrow>
   run_ops xs (d, w) = (d', w') \<Longrightarrow> VK_NULL_HANDLE \<notin> set w'"
proof (induction xs arbitrary: d w)
  case Nil
  then show ?case by simp
next
  case (Cons x xs)
  obtain d1 w1 where s: "step x (d, w) = (d1, w1)" by (cases "step x (d, w)")
  have del: "deleter d1 = record_release" using step_deleter[of x d w] s Cons.prems(1) by simp
  have "VK_NULL_HANDLE \<notin> set w1" using s Cons.prems(1,2)
    by (cases x rule: stored.cases)
       (auto simp: assign_def replace_def destroy_def cleanup_def slot_write_def
          record_release_def split: if_splits)
  from Cons.IH[OF del this] Cons.prems(3) s show ?case by simp
qed

text \<open>
  The recording release function loses nothing: with any other release function \<open>f\<close>
  the same operations leave the handle in the same state, and the world is the one
  obtained by applying \<open>f\<close> to the recorded values in order.
\<close>

lemma step_any_deleter:
  assumes "step x (\<lparr>object = v, deleter = record_release\<rparr>, l) = (d1, l1)"
  shows "step x (\<lparr>object = v, deleter = f\<rparr>, foldl (\<lambda>w x. f x w) w0 l) =
         (\<lparr>object = object d1, deleter = f\<rparr>, foldl (\<lambda>w x. f x w) w0 l1)"
  using assms
  by (cases x rule: stored.cases)
     (auto simp: assign_def replace_def destroy_def cleanup_def slot_write_def
        record_release_def split: if_splits)

lemma run_ops_any_deleter:
  "run_ops xs (\<lparr>object = v, deleter = record_release\<rparr>, l) = (d1, l1) \<Longrightarrow>
   run_ops xs (\<lparr>object = v, deleter = f\<rparr>, foldl (\<lambda>w x. f x w) w0 l) =
     (\<lparr>object = object d1, deleter = f\<rparr>, foldl (\<lambda>w x. f x w) w0 l1)"
proof (induction xs arbitrary: v l)
  case Nil
  then show ?case by auto
next
  case (Cons x xs)
  obtain d2 l2 where s: "step x (\<lparr>object = v, deleter = record_release\<rparr>, l) = (d2, l2)"
    by (cases "step x (\<lparr>object = v, deleter = record_release\<rparr>, l)")
  have "deleter d2 = record_release"
    using step_deleter[of x "\<lparr>object = v, deleter = record_release\<rparr>" l] s by simp
  then have d2: "d2 = \<lparr>object = object d2, deleter = record_release\<rparr>" by simp
  from Cons.prems s have "run_ops xs (d2, l2) = (d1, l1)" by simp
  with d2 have "run_ops xs (\<lparr>object = object d2, deleter = record_release\<rparr>, l2) = (d1, l1)"
    by simp
  from Cons.IH[OF this] step_any_deleter[OF s, of f w0] show ?case by simp
qed

lemma assign_destroy_log:
  assumes "deleter d = record_release" and "v \<noteq> VK_NULL_HANDLE"
  shows "snd (run_ops [Assign v, Destroy] (d, [])) =
           (if object d \<noteq> VK_NULL_HANDLE \<and> object d \<noteq> v then [object d, v] else [v])"
  using assms
  by (auto simp: assign_def destroy_def cleanup_def record_release_def)

lemma assign_twice_log:
  assumes "deleter d = record_release"
  shows "snd (run_ops [Assign v, Assign v] (d, [])) =
           (if object d \<noteq> VK_NULL_HANDLE \<and> object d \<noteq> v then [object d] else [])"
  using assms
  by (auto simp: assign_def destroy_def cleanup_def record_release_def)

text \<open>
  Claim C1. Take a handle in any state whose release function records its argument, and
  a non-empty value \<open>v\<close>. After \<open>assign(v)\<close> and the destruction of the handle the
  release function has been called with \<open>v\<close> exactly once. Assigning \<open>v\<close> twice in a
  row calls the release function at most once, and not with \<open>v\<close>. Over any sequence
  \<open>ops\<close> of assignments, replacements and destructions, the values released, followed
  by the value still held, form a subsequence of the non-empty values the handle was
  given (the one it started with, then the ones stored by \<open>ops\<close>, in order): each value
  held is released at most once. The release function is never called with
  \<open>VK_NULL_HANDLE\<close>. The record is what any release function sees: with a release
  function \<open>f\<close> in place of the recording one, the same operations apply \<open>f\<close> to
  the recorded values, in order, and to nothing else.
\<close>

theorem vdeleter_release_once:
  assumes del: "deleter d = record_release" and v: "v \<noteq> VK_NULL_HANDLE"
  shows "count_list (snd (run_ops [Assign v, Destroy] (d, []))) v = 1
       \<and> length (snd (run_ops [Assign v, Assign v] (d, []))) \<le> 1
       \<and> count_list (snd (run_ops [Assign v, Assign v] (d, []))) v = 0
       \<and> subseq (snd (run_ops ops (d, [])) @ live (fst (run_ops ops (d, []))))
            (non_null (object d # concat (map stored ops)))
       \<and> VK_NULL_HANDLE \<notin> set (snd (run_ops ops (d, [])))
       \<and> snd (run_ops ops (\<lparr>object = object d, deleter = f\<rparr>, w0)) =
           foldl (\<lambda>w x. f x w) w0 (snd (run_ops ops (d, [])))"
proof -
  have a: "count_list (snd (run_ops [Assign v, Destroy] (d, []))) v = 1"
    unfolding assign_destroy_log[OF del v] by simp
  have b: "length (snd (run_ops [Assign v, Assign v] (d, []))) \<le> 1"
    unfolding assign_twice_log[OF del] by simp
  have b': "count_list (snd (run_ops [Assign v, Assign v] (d, []))) v = 0"
    unfolding assign_twice_log[OF del] by simp
  obtain d' w' where r: "run_ops ops (d, []) = (d', w')" by (cases "run_ops ops (d, [])")
  have "subseq ([] @ live d) (non_null [object d])"
    by (simp add: live_def non_null_def)
  from run_ops_subseq[OF del this r]
  have c: "subseq (w' @ live d') (non_null (object d # concat (map stored ops)))" by simp
  have e: "VK_NULL_HANDLE \<notin> set w'"
    using run_ops_no_null[OF del _ r] by simp
  have g: "snd (run_ops ops (\<lparr>object = object d, deleter = f\<rparr>, w0)) =
      foldl (\<lambda>w x. f x w) w0 w'"
  proof -
    from del have "d = \<lparr>object = object d, deleter = record_release\<rparr>" by simp
    with r have "run_ops ops (\<lparr>object = object d, deleter = record_release\<rparr>, []) = (d', w')"
      by simp
    from run_ops_any_deleter[OF this, of f w0] show ?thesis by simp
  qed
  from a b b' c e g r show ?thesis by simp
qed

theorem vdeleter_release_once_witness:
  "deleter (VDeleter_of record_release) = record_release
   \<and> (7 :: handle) \<noteq> VK_NULL_HANDLE
   \<and> count_list (snd (run_ops [Assign 7, Destroy] (VDeleter_of record_release, []))) 7 = 1
   \<and> VK_NULL_HANDLE \<notin> set (snd (run_ops
         [Assign 7, Replace (Some 9), Assign 9, Replace None, Assign 7, Destroy]
         (VDeleter_of record_release, [])))
   \<and> snd (run_ops [Assign 7, Replace (Some 9), Assign 9, Replace None, Assign 7, Destroy]
         (VDeleter_of record_release, [])) = [7, 9, 7]"
proof -
  have h1: "deleter (VDeleter_of record_release) = record_release"
    by (simp add: VDeleter_of_def)
  have h2: "(7 :: handle) \<noteq> VK_NULL_HANDLE" by (simp add: VK_NULL_HANDLE_def)
  have l: "snd (run_ops [Assign 7, Replace (Some 9), Assign 9, Replace None, Assign 7, Destroy]
         (VDeleter_of record_release, [])) = [7, 9, 7]"
    by (simp add: VDeleter_of_def VK_NULL_HANDLE_def assign_def replace_def destroy_def
        cleanup_def slot_write_def record_release_def)
  from vdeleter_release_once[OF h1 h2,
      where ops = "[Assign 7, Replace (Some 9), Assign 9, Replace None, Assign 7, Destroy]"
        and f = record_release and ?w0.0 = "[]"]
  have "count_list (snd (run_ops [Assign 7, Destroy] (VDeleter_of record_release, []))) 7 = 1"
    and "VK_NULL_HANDLE \<notin> set (snd (run_ops
         [Assign 7, Replace (Some 9), Assign 9, Replace None, Assign 7, Destroy]
         (VDeleter_of record_release, [])))"
    by blast+
  with h1 h2 l show ?thesis by blast
qed

text \<open>
  Claim C4, as stated, fails on the empty handle: \<open>replace()\<close> leaves the record of
  releases empty, the release function is not called with the empty value.
\<close>

theorem replace_empty_counterexample:
  "object (VDeleter_of record_release) = VK_NULL_HANDLE
   \<and> snd (replace (VDeleter_of record_release) []) = []
   \<and> snd (replace (VDeleter_of record_release) []) \<noteq> [VK_NULL_HANDLE]"
  by (simp add: replace_def cleanup_def VDeleter_of_def)

text \<open>
  Claim C4, amended. \<open>replace()\<close> calls the release function on the value held before,
  once, exactly when that value is not \<open>VK_NULL_HANDLE\<close>, and leaves the world alone
  when the handle is empty. On return the handle is empty, the slot it returns reads
  \<open>VK_NULL_HANDLE\<close>, and the release function bound to the handle is unchanged.
\<close>

theorem replace_releases_non_empty:
  "snd (replace d w) = (if object d \<noteq> VK_NULL_HANDLE then deleter d (object d) w else w)
   \<and> object (fst (replace d w)) = VK_NULL_HANDLE
   \<and> slot_read (fst (replace d w)) = VK_NULL_HANDLE
   \<and> deleter (fst (replace d w)) = deleter d"
  by (simp add: replace_def cleanup_def slot_read_def)

section \<open>Properties of the queue family scan\<close>

lemma supportsGraphics_iff:
  "supportsGraphics q \<longleftrightarrow> queueCount q \<noteq> 0 \<and> bit (queueFlags q) 0"
  by (simp add: supportsGraphics_def VK_QUEUE_GRAPHICS_BIT_def word_greater_zero_iff
      and_one_eq mod_2_eq_odd bit_0)

lemma findQueueFamilies_loop_eq:
  "\<not> isComplete indices \<Longrightarrow> 0 \<le> i \<Longrightarrow>
   findQueueFamilies_loop xs i indices =
     (if \<exists>q \<in> set xs. supportsGraphics q
      then indices\<lparr>graphicsFamily := i + int (length (takeWhile (\<lambda>q. \<not> supportsGraphics q) xs))\<rparr>
      else indices)"
proof (induction xs arbitrary: i)
  case Nil
  then show ?case by simp
next
  case (Cons q xs)
  show ?case
  proof (cases "supportsGraphics q")
    case True
    with Cons.prems show ?thesis by (simp add: isComplete_def)
  next
    case False
    with Cons.prems Cons.IH[of "i + 1"] show ?thesis by (simp add: add.assoc)
  qed
qed

lemma findQueueFamilies_eq:
  "graphicsFamily (findQueueFamilies qf device) =
     (if \<exists>q \<in> set (qf device). supportsGraphics q
      then int (length (takeWhile (\<lambda>q. \<not> supportsGraphics q) (qf device)))
      else - 1)"
  by (simp add: findQueueFamilies_def findQueueFamilies_loop_eq isComplete_def
      QueueFamilyIndices_init_def)

lemma takeWhile_first:
  assumes "k < length xs" "P (xs ! k)" "\<forall>j<k. \<not> P (xs ! j)"
  shows "length (takeWhile (\<lambda>q. \<not> P q) xs) = k"
proof -
  have "takeWhile (\<lambda>q. \<not> P q) xs = take k xs"
    using assms by (intro takeWhile_eq_take_P_nth) auto
  with assms(1) show ?thesis by simp
qed

lemma isDeviceSuitable_exists:
  "isDeviceSuitable qf device \<longleftrightarrow> (\<exists>q \<in> set (qf device). supportsGraphics q)"
  by (simp add: isDeviceSuitable_def isComplete_def findQueueFamilies_eq)

lemma sample_families:
  "supportsGraphics (family 1 VK_QUEUE_GRAPHICS_BIT)" "\<not> supportsGraphics (family 2 VK_QUEUE_COMPUTE_BIT)"
  by (simp_all add: supportsGraphics_def family_def VK_QUEUE_GRAPHICS_BIT_def VK_QUEUE_COMPUTE_BIT_def)

text \<open>
  Claim C2. For a device whose family list has fewer than \<open>2 ^ 31\<close> entries (so that
  the C++ counter does not overflow): a family is accepted exactly when its queue count
  is not zero and the graphics bit of its flags is set; when no family of the list is
  accepted, \<open>findQueueFamilies\<close> returns the sentinel \<open>-1\<close> (the empty list
  included); when \<open>k\<close> is the lowest index of an accepted family it returns \<open>k\<close>, and
  the scan stops there: whatever families follow position \<open>k\<close>, the result is the same.
\<close>

theorem findQueueFamilies_first_match:
  assumes "length (qf device) < 2 ^ 31"
  shows "(\<forall>q. supportsGraphics q \<longleftrightarrow> queueCount q \<noteq> 0 \<and> bit (queueFlags q) 0)
    \<and> ((\<forall>q \<in> set (qf device). \<not> supportsGraphics q) \<longrightarrow>
          graphicsFamily (findQueueFamilies qf device) = - 1)
    \<and> (\<forall>k < length (qf device).
          supportsGraphics (qf device ! k) \<and> (\<forall>j<k. \<not> supportsGraphics (qf device ! j)) \<longrightarrow>
            graphicsFamily (findQueueFamilies qf device) = int k
          \<and> int k < 2 ^ 31
          \<and> (\<forall>rest. findQueueFamilies_loop (take (Suc k) (qf device) @ rest) 0
                 QueueFamilyIndices_init = findQueueFamilies qf device))"
proof (intro conjI allI impI)
  fix q show "supportsGraphics q \<longleftrightarrow> queueCount q \<noteq> 0 \<and> bit (queueFlags q) 0"
    by (rule supportsGraphics_iff)
next
  assume "\<forall>q \<in> set (qf device). \<not> supportsGraphics q"
  then show "graphicsFamily (findQueueFamilies qf device) = - 1"
    by (simp add: findQueueFamilies_eq)
next
  fix k
  assume k: "k < length (qf device)"
    and f: "supportsGraphics (qf device ! k) \<and> (\<forall>j<k. \<not> supportsGraphics (qf device ! j))"
  have ex: "\<exists>q \<in> set (qf device). supportsGraphics q"
    using k f nth_mem by blast
  have tw: "length (takeWhile (\<lambda>q. \<not> supportsGraphics q) (qf device)) = k"
    using k f by (intro takeWhile_first) auto
  show r: "graphicsFamily (findQueueFamilies qf device) = int k"
    using ex tw by (simp add: findQueueFamilies_eq)
  show "int k < 2 ^ 31" using k assms by simp
  fix rest
  let ?xs = "take (Suc k) (qf device) @ rest"
  have k': "k < length ?xs" using k by simp
  have nth: "\<And>j. j \<le> k \<Longrightarrow> ?xs ! j = qf device ! j"
    using k by (simp add: nth_append)
  have "supportsGraphics (?xs ! k)" using f nth[of k] by simp
  then have ex': "\<exists>q \<in> set ?xs. supportsGraphics q"
    using nth_mem[OF k'] by blast
  have tw': "length (takeWhile (\<lambda>q. \<not> supportsGraphics q) ?xs) = k"
    using k' f nth by (intro takeWhile_first) auto
  have "findQueueFamilies_loop ?xs 0 QueueFamilyIndices_init =
        QueueFamilyIndices_init\<lparr>graphicsFamily := int k\<rparr>"
    using ex' tw' by (simp add: findQueueFamilies_loop_eq isComplete_def QueueFamilyIndices_init_def)
  moreover have "findQueueFamilies qf device = QueueFamilyIndices_init\<lparr>graphicsFamily := int k\<rparr>"
    using ex tw by (simp add: findQueueFamilies_def findQueueFamilies_loop_eq isComplete_def
        QueueFamilyIndices_init_def)
  ultimately show "findQueueFamilies_loop ?xs 0 QueueFamilyIndices_init = findQueueFamilies qf device"
    by simp
qed

theorem findQueueFamilies_first_match_witness:
  "length [family 2 VK_QUEUE_COMPUTE_BIT, family 1 VK_QUEUE_GRAPHICS_BIT] < 2 ^ 31
   \<and> graphicsFamily (findQueueFamilies
        (\<lambda>device. [family 2 VK_QUEUE_COMPUTE_BIT, family 1 VK_QUEUE_GRAPHICS_BIT]) 0) = 1
   \<and> graphicsFamily (findQueueFamilies (\<lambda>device. [family 2 VK_QUEUE_COMPUTE_BIT]) 0) = - 1"
proof -
  let ?qf = "\<lambda>device :: handle. [family 2 VK_QUEUE_COMPUTE_BIT, family 1 VK_QUEUE_GRAPHICS_BIT]"
  let ?qg = "\<lambda>device :: handle. [family 2 VK_QUEUE_COMPUTE_BIT]"
  have h: "length (?qf 0) < 2 ^ 31" by simp
  have h': "length (?qg 0) < 2 ^ 31" by simp
  have a: "graphicsFamily (findQueueFamilies ?qf 0) = int 1"
    using findQueueFamilies_first_match[OF h] sample_families
    by (auto simp: less_Suc_eq)
  have b: "graphicsFamily (findQueueFamilies ?qg 0) = - 1"
    using findQueueFamilies_first_match[OF h'] sample_families by simp
  from a b show ?thesis by simp
qed

section \<open>Properties of the layer check\<close>

lemma strcmp_eq: "strcmp a b = 0 \<longleftrightarrow> a = b"
  by (induction a b rule: strcmp.induct) auto

lemma layerFound_iff: "layerFound n avail \<longleftrightarrow> n \<in> set avail"
  by (induction avail) (auto simp: strcmp_eq)

lemma checkValidationLayerSupport_iff:
  "checkValidationLayerSupport required avail \<longleftrightarrow> (\<forall>n \<in> set required. n \<in> set avail)"
  by (induction required) (auto simp: layerFound_iff)

text \<open>
  Claim C5. \<open>checkValidationLayerSupport\<close> returns true exactly when every required
  name occurs among the available names; the comparison \<open>strcmp(a, b) == 0\<close> holds
  exactly for equal strings. It returns false at the first required name that is
  missing, whatever names come after it in the required list. The result depends on the
  set of available names only, not on their order.
\<close>

theorem checkValidationLayerSupport_all_present:
  "(checkValidationLayerSupport required avail \<longleftrightarrow> (\<forall>n \<in> set required. n \<in> set avail))
   \<and> (\<forall>a b. strcmp a b = 0 \<longleftrightarrow> a = b)
   \<and> (\<forall>found n rest. (\<forall>m \<in> set found. m \<in> set avail) \<and> n \<notin> set avail \<longrightarrow>
          \<not> checkValidationLayerSupport (found @ n # rest) avail)
   \<and> (\<forall>avail'. set avail' = set avail \<longrightarrow>
          checkValidationLayerSupport required avail' = checkValidationLayerSupport required avail)"
proof (intro conjI allI impI)
  show "checkValidationLayerSupport required avail \<longleftrightarrow> (\<forall>n \<in> set required. n \<in> set avail)"
    by (rule checkValidationLayerSupport_iff)
next
  fix a b show "strcmp a b = 0 \<longleftrightarrow> a = b" by (rule strcmp_eq)
next
  fix found n rest
  assume "(\<forall>m \<in> set found. m \<in> set avail) \<and> n \<notin> set avail"
  then show "\<not> checkValidationLayerSupport (found @ n # rest) avail"
    by (simp add: checkValidationLayerSupport_iff)
next
  fix avail' assume "set avail' = set avail"
  then show "checkValidationLayerSupport required avail' = checkValidationLayerSupport required avail"
    by (simp add: checkValidationLayerSupport_iff)
qed

theorem checkValidationLayerSupport_all_present_witness:
  "\<not> checkValidationLayerSupport [''A'', ''B''] [''A'']
   \<and> checkValidationLayerSupport [''A'', ''B''] [''B'', ''A'']
   \<and> set [''A'', ''B''] = set [''B'', ''A'']
   \<and> checkValidationLayerSupport [''A'', ''B''] [''A'', ''B'']"
proof -
  have a: "\<not> checkValidationLayerSupport [''A'', ''B''] [''A'']"
    using checkValidationLayerSupport_all_present[of "[''A'', ''B'']" "[''A'']"] by simp
  have b: "checkValidationLayerSupport [''A'', ''B''] [''B'', ''A'']"
    using checkValidationLayerSupport_all_present[of "[''A'', ''B'']" "[''B'', ''A'']"] by simp
  have s: "set [''A'', ''B''] = set [''B'', ''A'']" by auto
  have c: "checkValidationLayerSupport [''A'', ''B''] [''A'', ''B'']"
    using checkValidationLayerSupport_all_present[of "[''A'', ''B'']" "[''B'', ''A'']"] b s
    by blast
  from a b s c show ?thesis by blast
qed

text \<open>
  Claim C9. With no required layer the check returns true, whatever layers are
  available: the outer loop runs zero times and the function reaches
  \<^verbatim>\<open>return true\<close>.
\<close>

theorem checkValidationLayerSupport_none_required:
  "checkValidationLayerSupport [] availableLayers = True"
  by simp

section \<open>The debug callback returns \<open>VK_FALSE\<close>\<close>

text \<open>
  Claim C10. For all arguments, \<open>debugCallback\<close> returns \<open>VK_FALSE\<close>, which is 0: it
  never asks for the call that triggered the message to be aborted. Its only effect is
  one line on the standard error stream.
\<close>

theorem debugCallback_returns_VK_FALSE:
  "snd (debugCallback flags objType obj location code layerPrefix msg userData cerr0) = VK_FALSE
   \<and> VK_FALSE = 0
   \<and> fst (debugCallback flags objType obj location code layerPrefix msg userData cerr0) =
       cerr0 @ [''validation layer: '' @ msg]"
  by (simp add: debugCallback_def VK_FALSE_def)

section \<open>Properties of the device selection\<close>

text \<open>
  Claim C6. \<open>isDeviceSuitable\<close> is the completeness predicate of the result of
  \<open>findQueueFamilies\<close>: it holds exactly when the recorded index is at least 0, which
  is exactly when the index is not the sentinel \<open>-1\<close>, and exactly when some family of
  the device is accepted. Nothing else about the device enters: two devices, under any
  two drivers, that report the same family list get the same answer.
\<close>

theorem isDeviceSuitable_is_completeness:
  "(isDeviceSuitable qf device \<longleftrightarrow> isComplete (findQueueFamilies qf device))
   \<and> (isDeviceSuitable qf device \<longleftrightarrow> graphicsFamily (findQueueFamilies qf device) \<ge> 0)
   \<and> (isDeviceSuitable qf device \<longleftrightarrow> graphicsFamily (findQueueFamilies qf device) \<noteq> - 1)
   \<and> (isDeviceSuitable qf device \<longleftrightarrow> (\<exists>q \<in> set (qf device). supportsGraphics q))
   \<and> (\<forall>qf' device'. qf' device' = qf device \<longrightarrow>
         isDeviceSuitable qf' device' = isDeviceSuitable qf device)"
proof (intro conjI allI impI)
  show "isDeviceSuitable qf device \<longleftrightarrow> isComplete (findQueueFamilies qf device)"
    by (simp add: isDeviceSuitable_def)
  show "isDeviceSuitable qf device \<longleftrightarrow> graphicsFamily (findQueueFamilies qf device) \<ge> 0"
    by (simp add: isDeviceSuitable_def isComplete_def)
  show "isDeviceSuitable qf device \<longleftrightarrow> graphicsFamily (findQueueFamilies qf device) \<noteq> - 1"
    by (simp add: isDeviceSuitable_def isComplete_def findQueueFamilies_eq)
  show "isDeviceSuitable qf device \<longleftrightarrow> (\<exists>q \<in> set (qf device). supportsGraphics q)"
    by (rule isDeviceSuitable_exists)
next
  fix qf' :: "handle \<Rightarrow> VkQueueFamilyProperties list" and device'
  assume "qf' device' = qf device"
  then show "isDeviceSuitable qf' device' = isDeviceSuitable qf device"
    by (simp add: isDeviceSuitable_exists)
qed

theorem isDeviceSuitable_is_completeness_witness:
  "queueFamilyProperties sample_env 3 = (\<lambda>device. [family 1 VK_QUEUE_GRAPHICS_BIT]) 0
   \<and> isDeviceSuitable (queueFamilyProperties sample_env) 3
   \<and> graphicsFamily (findQueueFamilies (queueFamilyProperties sample_env) 3) = 0
   \<and> \<not> isDeviceSuitable (queueFamilyProperties sample_env) 1
   \<and> graphicsFamily (findQueueFamilies (queueFamilyProperties sample_env) 1) = - 1"
proof -
  let ?qf = "\<lambda>device :: handle. [family 1 VK_QUEUE_GRAPHICS_BIT]"
  have h: "queueFamilyProperties sample_env 3 = ?qf 0" by (simp add: sample_env_def)
  have q1: "queueFamilyProperties sample_env 1 = [family 2 VK_QUEUE_COMPUTE_BIT]"
    by (simp add: sample_env_def)
  from isDeviceSuitable_is_completeness[of ?qf 0]
  have "isDeviceSuitable ?qf 0 \<longleftrightarrow> (\<exists>q \<in> set (?qf 0). supportsGraphics q)" by blast
  then have a: "isDeviceSuitable ?qf 0" using sample_families by simp
  have b: "isDeviceSuitable (queueFamilyProperties sample_env) 3"
    using isDeviceSuitable_is_completeness[of ?qf 0] h a by blast
  have c: "graphicsFamily (findQueueFamilies (queueFamilyProperties sample_env) 3) = 0"
    using h sample_families by (simp add: findQueueFamilies_eq)
  from isDeviceSuitable_is_completeness[of "queueFamilyProperties sample_env" 1]
  have "isDeviceSuitable (queueFamilyProperties sample_env) 1 \<longleftrightarrow>
        (\<exists>q \<in> set (queueFamilyProperties sample_env 1). supportsGraphics q)" by blast
  then have d: "\<not> isDeviceSuitable (queueFamilyProperties sample_env) 1"
    using q1 sample_families by simp
  have e: "graphicsFamily (findQueueFamilies (queueFamilyProperties sample_env) 1) = - 1"
    using q1 sample_families by (simp add: findQueueFamilies_eq)
  from h b c d e show ?thesis by blast
qed

lemma isDeviceSuitable_call_eq:
  "isDeviceSuitable_call e device s =
     (isDeviceSuitable (queueFamilyProperties e) device,
      s\<lparr>queried := queried s @ [device, device]\<rparr>)"
  by (simp add: isDeviceSuitable_call_def findQueueFamilies_call_def isDeviceSuitable_def
      vkGetPhysicalDeviceQueueFamilyProperties_def)

lemma findQueueFamilies_call_eq:
  "findQueueFamilies_call e device s =
     (findQueueFamilies (queueFamilyProperties e) device,
      s\<lparr>queried := queried s @ [device, device]\<rparr>)"
  by (simp add: findQueueFamilies_call_def vkGetPhysicalDeviceQueueFamilyProperties_def)

lemma pick_loop_none:
  "\<forall>d \<in> set ds. \<not> isDeviceSuitable (queueFamilyProperties e) d \<Longrightarrow>
   pickPhysicalDevice_loop e ds s =
     s\<lparr>queried := queried s @ concat (map (\<lambda>d. [d, d]) ds)\<rparr>"
  by (induction ds arbitrary: s) (simp_all add: isDeviceSuitable_call_eq)

lemma pick_loop_first:
  "k < length ds \<Longrightarrow> isDeviceSuitable (queueFamilyProperties e) (ds ! k) \<Longrightarrow>
   \<forall>j<k. \<not> isDeviceSuitable (queueFamilyProperties e) (ds ! j) \<Longrightarrow>
   pickPhysicalDevice_loop e ds s =
     s\<lparr>queried := queried s @ concat (map (\<lambda>d. [d, d]) (take (Suc k) ds)),
       physicalDevice := ds ! k\<rparr>"
proof (induction ds arbitrary: k s)
  case Nil
  then show ?case by simp
next
  case (Cons d ds)
  show ?case
  proof (cases k)
    case 0
    with Cons.prems show ?thesis by (simp add: isDeviceSuitable_call_eq)
  next
    case (Suc k')
    with Cons.prems have n: "\<not> isDeviceSuitable (queueFamilyProperties e) d" by auto
    have "pickPhysicalDevice_loop e ds (s\<lparr>queried := queried s @ [d, d]\<rparr>) =
        (s\<lparr>queried := queried s @ [d, d]\<rparr>)
          \<lparr>queried := queried (s\<lparr>queried := queried s @ [d, d]\<rparr>)
               @ concat (map (\<lambda>d. [d, d]) (take (Suc k') ds)),
           physicalDevice := ds ! k'\<rparr>"
      using Cons.prems Suc by (intro Cons.IH) auto
    with n Suc show ?thesis by (simp add: isDeviceSuitable_call_eq)
  qed
qed

text \<open>
  Claim C3. Let the member \<open>physicalDevice\<close> hold \<open>VK_NULL_HANDLE\<close>, as its
  initialiser leaves it, and let the driver enumerate valid (non-null) device handles.
  Then \<open>pickPhysicalDevice\<close> throws the "no devices" error when the enumeration is
  empty, without asking the driver about any device. When \<open>k\<close> is the position of the
  first suitable device it returns normally with that device recorded, and it has
  evaluated the devices at positions \<open>0\<close> to \<open>k\<close> and no other: the driver was
  queried about exactly these, in order, twice each (count, then fetch), and about no
  device after position \<open>k\<close>; accordingly, under any driver whose enumeration starts
  with the same \<open>k + 1\<close> devices and that reports the same queue families for them,
  the outcome is the same. When the enumeration is not empty and holds no suitable
  device, every device has been evaluated and the "no suitable device" error is thrown.
  Nothing else of the state changes.
\<close>

theorem pickPhysicalDevice_first_suitable:
  assumes init: "physicalDevice s = VK_NULL_HANDLE"
      and valid: "VK_NULL_HANDLE \<notin> set (physicalDevices e (instance_object s))"
  shows "(physicalDevices e (instance_object s) = [] \<longrightarrow>
            pickPhysicalDevice e s =
              (Some (Runtime_error ''failed to find GPUs with Vilkan support!''), s))
    \<and> (\<forall>k < length (physicalDevices e (instance_object s)).
          isDeviceSuitable (queueFamilyProperties e) (physicalDevices e (instance_object s) ! k)
          \<and> (\<forall>j<k. \<not> isDeviceSuitable (queueFamilyProperties e)
                       (physicalDevices e (instance_object s) ! j)) \<longrightarrow>
            pickPhysicalDevice e s =
              (None, s\<lparr>queried := queried s @ concat (map (\<lambda>d. [d, d])
                             (take (Suc k) (physicalDevices e (instance_object s)))),
                       physicalDevice := physicalDevices e (instance_object s) ! k\<rparr>)
          \<and> queried (snd (pickPhysicalDevice e s)) =
              queried s @ concat (map (\<lambda>d. [d, d])
                (take (Suc k) (physicalDevices e (instance_object s))))
          \<and> (\<forall>e' rest.
                physicalDevices e' (instance_object s) =
                  take (Suc k) (physicalDevices e (instance_object s)) @ rest
                \<and> (\<forall>j\<le>k. queueFamilyProperties e' (physicalDevices e (instance_object s) ! j)
                          = queueFamilyProperties e (physicalDevices e (instance_object s) ! j))
                \<longrightarrow> pickPhysicalDevice e' s = pickPhysicalDevice e s))
    \<and> (physicalDevices e (instance_object s) \<noteq> []
        \<and> (\<forall>d \<in> set (physicalDevices e (instance_object s)).
               \<not> isDeviceSuitable (queueFamilyProperties e) d) \<longrightarrow>
            pickPhysicalDevice e s =
              (Some (Runtime_error ''no Vulkan supporting GPU can do what you need!''),
               s\<lparr>queried := queried s @ concat (map (\<lambda>d. [d, d])
                             (physicalDevices e (instance_object s)))\<rparr>))"
proof (intro conjI allI impI)
  assume "physicalDevices e (instance_object s) = []"
  then show "pickPhysicalDevice e s =
      (Some (Runtime_error ''failed to find GPUs with Vilkan support!''), s)"
    by (simp add: pickPhysicalDevice_def)
next
  let ?ds = "physicalDevices e (instance_object s)"
  fix k
  assume k: "k < length ?ds"
    and f: "isDeviceSuitable (queueFamilyProperties e) (?ds ! k)
            \<and> (\<forall>j<k. \<not> isDeviceSuitable (queueFamilyProperties e) (?ds ! j))"
  let ?s' = "s\<lparr>queried := queried s @ concat (map (\<lambda>d. [d, d]) (take (Suc k) ?ds)),
                physicalDevice := ?ds ! k\<rparr>"
  have loop: "pickPhysicalDevice_loop e ?ds s = ?s'"
    using k f by (intro pick_loop_first) auto
  have nn: "?ds ! k \<noteq> VK_NULL_HANDLE"
    using valid nth_mem[OF k] by auto
  from k have ne: "length ?ds \<noteq> 0" by auto
  show r: "pickPhysicalDevice e s = (None, ?s')"
    using loop nn ne by (simp add: pickPhysicalDevice_def Let_def)
  then show "queried (snd (pickPhysicalDevice e s)) =
      queried s @ concat (map (\<lambda>d. [d, d]) (take (Suc k) ?ds))"
    by simp
  fix e' :: env and rest
  assume h: "physicalDevices e' (instance_object s) = take (Suc k) ?ds @ rest
             \<and> (\<forall>j\<le>k. queueFamilyProperties e' (?ds ! j) = queueFamilyProperties e (?ds ! j))"
  let ?ds' = "physicalDevices e' (instance_object s)"
  have k': "k < length ?ds'" using h k by simp
  have nth: "\<And>j. j \<le> k \<Longrightarrow> ?ds' ! j = ?ds ! j"
    using h k by (simp add: nth_append)
  have tk: "take (Suc k) ?ds' = take (Suc k) ?ds"
    using h k by simp
  have suit: "\<And>j. j \<le> k \<Longrightarrow> isDeviceSuitable (queueFamilyProperties e') (?ds' ! j)
                  = isDeviceSuitable (queueFamilyProperties e) (?ds ! j)"
    using h nth by (simp add: isDeviceSuitable_exists)
  have loop': "pickPhysicalDevice_loop e' ?ds' s =
      s\<lparr>queried := queried s @ concat (map (\<lambda>d. [d, d]) (take (Suc k) ?ds')),
        physicalDevice := ?ds' ! k\<rparr>"
    using k' f suit by (intro pick_loop_first) auto
  from k' have ne': "length ?ds' \<noteq> 0" by auto
  have "pickPhysicalDevice e' s = (None, ?s')"
    using loop' nn ne' nth[of k] tk by (simp add: pickPhysicalDevice_def Let_def)
  with r show "pickPhysicalDevice e' s = pickPhysicalDevice e s" by simp
next
  let ?ds = "physicalDevices e (instance_object s)"
  assume h: "?ds \<noteq> [] \<and> (\<forall>d \<in> set ?ds. \<not> isDeviceSuitable (queueFamilyProperties e) d)"
  then have "pickPhysicalDevice_loop e ?ds s =
      s\<lparr>queried := queried s @ concat (map (\<lambda>d. [d, d]) ?ds)\<rparr>"
    by (intro pick_loop_none) simp
  with h init show "pickPhysicalDevice e s =
      (Some (Runtime_error ''no Vulkan supporting GPU can do what you need!''),
       s\<lparr>queried := queried s @ concat (map (\<lambda>d. [d, d]) ?ds)\<rparr>)"
    by (simp add: pickPhysicalDevice_def Let_def)
qed

lemma sample_suitable:
  "\<not> isDeviceSuitable (queueFamilyProperties sample_env) 1"
  "isDeviceSuitable (queueFamilyProperties sample_env) 2"
  "isDeviceSuitable (queueFamilyProperties sample_env) 3"
  using sample_families by (simp_all add: isDeviceSuitable_exists sample_env_def)

theorem pickPhysicalDevice_first_suitable_witness:
  "physicalDevice app_init = VK_NULL_HANDLE
   \<and> VK_NULL_HANDLE \<notin> set (physicalDevices sample_env (instance_object app_init))
   \<and> physicalDevices sample_env (instance_object app_init) = [1, 2, 3]
   \<and> \<not> isDeviceSuitable (queueFamilyProperties sample_env) 1
   \<and> isDeviceSuitable (queueFamilyProperties sample_env) 2
   \<and> isDeviceSuitable (queueFamilyProperties sample_env) 3
   \<and> pickPhysicalDevice sample_env app_init =
       (None, app_init\<lparr>queried := [1, 1, 2, 2], physicalDevice := 2\<rparr>)
   \<and> pickPhysicalDevice (sample_env\<lparr>physicalDevices := \<lambda>inst. []\<rparr>) app_init =
       (Some (Runtime_error ''failed to find GPUs with Vilkan support!''), app_init)
   \<and> pickPhysicalDevice (sample_env\<lparr>physicalDevices := \<lambda>inst. [1]\<rparr>) app_init =
       (Some (Runtime_error ''no Vulkan supporting GPU can do what you need!''),
        app_init\<lparr>queried := [1, 1]\<rparr>)"
proof -
  have i: "physicalDevice app_init = VK_NULL_HANDLE" by (simp add: app_init_def)
  have q0: "queried app_init = []" by (simp add: app_init_def)
  have ds: "physicalDevices sample_env (instance_object app_init) = [1, 2, 3]"
    by (simp add: sample_env_def)
  have v: "VK_NULL_HANDLE \<notin> set (physicalDevices sample_env (instance_object app_init))"
    by (simp add: ds VK_NULL_HANDLE_def)
  have a: "pickPhysicalDevice sample_env app_init =
      (None, app_init\<lparr>queried := [1, 1, 2, 2], physicalDevice := 2\<rparr>)"
  proof -
    let ?ds = "physicalDevices sample_env (instance_object app_init)"
    have k: "1 < length ?ds" by (simp add: ds)
    have f: "isDeviceSuitable (queueFamilyProperties sample_env) (?ds ! 1)
             \<and> (\<forall>j<1. \<not> isDeviceSuitable (queueFamilyProperties sample_env) (?ds ! j))"
      using sample_suitable by (simp add: ds)
    from pickPhysicalDevice_first_suitable[OF i v, THEN conjunct2, THEN conjunct1,
        THEN spec, THEN mp, OF k, THEN mp, OF f, THEN conjunct1]
    show ?thesis by (simp add: ds q0)
  qed
  let ?e0 = "sample_env\<lparr>physicalDevices := \<lambda>inst. []\<rparr>"
  have d0: "physicalDevices ?e0 (instance_object app_init) = []" by simp
  have v0: "VK_NULL_HANDLE \<notin> set (physicalDevices ?e0 (instance_object app_init))"
    by (simp only: d0) simp
  have b: "pickPhysicalDevice ?e0 app_init =
       (Some (Runtime_error ''failed to find GPUs with Vilkan support!''), app_init)"
    by (rule pickPhysicalDevice_first_suitable[OF i v0, THEN conjunct1, THEN mp, OF d0])
  let ?e1 = "sample_env\<lparr>physicalDevices := \<lambda>inst. [1]\<rparr>"
  have d1: "physicalDevices ?e1 (instance_object app_init) = [1]" by simp
  have v1: "VK_NULL_HANDLE \<notin> set (physicalDevices ?e1 (instance_object app_init))"
    by (simp only: d1) (simp add: VK_NULL_HANDLE_def)
  have q: "queueFamilyProperties ?e1 = queueFamilyProperties sample_env" by simp
  have f1: "physicalDevices ?e1 (instance_object app_init) \<noteq> []
        \<and> (\<forall>d \<in> set (physicalDevices ?e1 (instance_object app_init)).
               \<not> isDeviceSuitable (queueFamilyProperties ?e1) d)"
    using sample_suitable(1) by (simp only: d1 q) simp
  have c: "pickPhysicalDevice ?e1 app_init =
       (Some (Runtime_error ''no Vulkan supporting GPU can do what you need!''),
        app_init\<lparr>queried := [1, 1]\<rparr>)"
    using pickPhysicalDevice_first_suitable[OF i v1, THEN conjunct2, THEN conjunct2,
          THEN mp, OF f1]
    by (simp only: d1 q0) simp
  show ?thesis
    apply (intro conjI)
            apply (rule i)
           apply (rule v)
          apply (rule ds)
         apply (rule sample_suitable(1))
        apply (rule sample_suitable(2))
       apply (rule sample_suitable(3))
      apply (rule a)
     apply (rule b)
    apply (rule c)
    done
qed

section \<open>Teardown of the application\<close>

lemma DestroyDebugReportCallbackEXT_eq:
  "DestroyDebugReportCallbackEXT e inst callback s =
     s\<lparr>calls := calls s @ ProxyDestroyDebugReportCallbackEXT inst callback
          # (if vkGetInstanceProcAddr e inst ''vkDestroyDebugReportCallbackEXT''
             then [VkDestroyDebugReportCallbackEXT inst callback] else [])\<rparr>"
  by (simp add: DestroyDebugReportCallbackEXT_def emit_def Let_def)

lemma on_member_cleanup:
  "on_member e m cleanup s =
     member_update m VK_NULL_HANDLE
       (if member_object m s \<noteq> VK_NULL_HANDLE
        then member_deleter e m (member_object m s) s else s)"
  by (simp add: on_member_def member_view_def cleanup_def)

lemma on_member_destroy: "on_member e m destroy s = on_member e m cleanup s"
  by (simp add: on_member_def destroy_def)

lemma on_member_replace: "on_member e m replace s = on_member e m cleanup s"
  by (simp add: on_member_def replace_def)

lemma app_destroy_unfold:
  "app_destroy e s =
     on_member e M_instance destroy
       (on_member e M_callback destroy (on_member e M_device destroy s))"
  by (simp add: app_destroy_def declared_members_def)

lemma app_destroy_calls:
  "calls (app_destroy e s) =
     calls s
     @ (if device_object s \<noteq> VK_NULL_HANDLE then [VkDestroyDevice (device_object s)] else [])
     @ (if callback_object s \<noteq> VK_NULL_HANDLE
        then ProxyDestroyDebugReportCallbackEXT (instance_object s) (callback_object s)
             # (if vkGetInstanceProcAddr e (instance_object s) ''vkDestroyDebugReportCallbackEXT''
                then [VkDestroyDebugReportCallbackEXT (instance_object s) (callback_object s)]
                else [])
        else [])
     @ (if instance_object s \<noteq> VK_NULL_HANDLE then [VkDestroyInstance (instance_object s)] else [])"
  by (simp add: app_destroy_unfold on_member_destroy on_member_cleanup emit_def
      DestroyDebugReportCallbackEXT_eq)

lemma app_destroy_fields:
  "instance_object (app_destroy e s) = VK_NULL_HANDLE"
  "callback_object (app_destroy e s) = VK_NULL_HANDLE"
  "device_object (app_destroy e s) = VK_NULL_HANDLE"
  "cerr (app_destroy e s) = cerr s"
  "cout (app_destroy e s) = cout s"
  by (simp_all add: app_destroy_unfold on_member_destroy on_member_cleanup emit_def
      DestroyDebugReportCallbackEXT_eq)

text \<open>
  Claim C7. The destructor of the application destroys the scoped members in the
  reverse of their declaration order: \<open>device\<close>, then \<open>callback\<close>, then
  \<open>instance\<close>. The handle \<open>callback\<close> (declared after \<open>instance\<close>, released with
  \<open>instance\<close> as context) is released first, and its release function receives the
  value that \<open>instance\<close> still holds; \<open>vkDestroyInstance\<close> is the last call of the
  teardown. All three handles are empty afterwards.
\<close>

theorem teardown_reverse_declaration_order:
  "app_destroy e s =
     on_member e M_instance destroy
       (on_member e M_callback destroy (on_member e M_device destroy s))
   \<and> declared_members = [M_instance, M_callback, M_device]
   \<and> calls (app_destroy e s) =
       calls s
       @ (if device_object s \<noteq> VK_NULL_HANDLE then [VkDestroyDevice (device_object s)] else [])
       @ (if callback_object s \<noteq> VK_NULL_HANDLE
          then ProxyDestroyDebugReportCallbackEXT (instance_object s) (callback_object s)
               # (if vkGetInstanceProcAddr e (instance_object s) ''vkDestroyDebugReportCallbackEXT''
                  then [VkDestroyDebugReportCallbackEXT (instance_object s) (callback_object s)]
                  else [])
          else [])
       @ (if instance_object s \<noteq> VK_NULL_HANDLE
          then [VkDestroyInstance (instance_object s)] else [])
   \<and> instance_object (on_member e M_callback destroy (on_member e M_device destroy s)) =
       instance_object s
   \<and> instance_object (app_destroy e s) = VK_NULL_HANDLE
   \<and> callback_object (app_destroy e s) = VK_NULL_HANDLE
   \<and> device_object (app_destroy e s) = VK_NULL_HANDLE"
proof (intro conjI)
  show "app_destroy e s =
     on_member e M_instance destroy
       (on_member e M_callback destroy (on_member e M_device destroy s))"
    by (rule app_destroy_unfold)
  show "declared_members = [M_instance, M_callback, M_device]"
    by (rule declared_members_def)
  show "instance_object (on_member e M_callback destroy (on_member e M_device destroy s)) =
       instance_object s"
    by (simp add: on_member_destroy on_member_cleanup emit_def DestroyDebugReportCallbackEXT_eq)
qed (simp_all only: app_destroy_calls app_destroy_fields)

text \<open>
  Why the order matters: were \<open>instance\<close> destroyed before \<open>callback\<close>, the release
  function of \<open>callback\<close> would read the emptied member and hand
  \<open>VK_NULL_HANDLE\<close> to the driver as the owning context.
\<close>

lemma declaration_order_would_lose_context:
  assumes "instance_object s \<noteq> VK_NULL_HANDLE" and "callback_object s \<noteq> VK_NULL_HANDLE"
  shows "calls (on_member e M_callback destroy (on_member e M_instance destroy s)) =
           calls s @ VkDestroyInstance (instance_object s)
             # ProxyDestroyDebugReportCallbackEXT VK_NULL_HANDLE (callback_object s)
             # (if vkGetInstanceProcAddr e VK_NULL_HANDLE ''vkDestroyDebugReportCallbackEXT''
                then [VkDestroyDebugReportCallbackEXT VK_NULL_HANDLE (callback_object s)]
                else [])"
  using assms
  by (simp add: on_member_destroy on_member_cleanup emit_def DestroyDebugReportCallbackEXT_eq)

section \<open>Fatal errors\<close>

lemma CreateDebugReportCallbackEXT_eq:
  "CreateDebugReportCallbackEXT e inst slot s =
     (if vkGetInstanceProcAddr e inst ''vkCreateDebugReportCallbackEXT''
      then (vkCreateDebugReportCallbackEXT_result e,
            s\<lparr>calls := calls s @ [ProxyCreateDebugReportCallbackEXT inst,
                                   VkCreateDebugReportCallbackEXT inst]\<rparr>)
      else ((VK_ERROR_EXTENSION_NOT_PRESENT, slot),
            s\<lparr>calls := calls s @ [ProxyCreateDebugReportCallbackEXT inst]\<rparr>))"
  by (simp add: CreateDebugReportCallbackEXT_def emit_def Let_def)

lemma on_member_cleanup_frame:
  "cerr (on_member e m cleanup s) = cerr s"
  "cout (on_member e m cleanup s) = cout s"
  "physicalDevice (on_member e m cleanup s) = physicalDevice s"
  "graphicsQueue (on_member e m cleanup s) = graphicsQueue s"
  by (cases m; simp add: on_member_cleanup emit_def DestroyDebugReportCallbackEXT_eq)+

lemma createInstance_frame:
  "cerr (snd (createInstance e s)) = cerr s"
  "physicalDevice (snd (createInstance e s)) = physicalDevice s"
  "graphicsQueue (snd (createInstance e s)) = graphicsQueue s"
  by (simp_all add: createInstance_def Let_def on_member_replace on_member_cleanup_frame
      emit_def split: prod.splits)

lemma setupDebugCallback_frame:
  "cerr (snd (setupDebugCallback e s)) = cerr s"
  "physicalDevice (snd (setupDebugCallback e s)) = physicalDevice s"
  "graphicsQueue (snd (setupDebugCallback e s)) = graphicsQueue s"
  by (simp_all add: setupDebugCallback_def Let_def on_member_replace on_member_cleanup_frame
      CreateDebugReportCallbackEXT_eq split: prod.splits)













text \<open>
  \<open>initVulkan\<close> calls \<open>pickPhysicalDevice\<close> on a state whose member
  \<open>physicalDevice\<close> still holds its initial \<open>VK_NULL_HANDLE\<close>.
\<close>

lemma pickPhysicalDevice_entry_state:
  assumes "createInstance e (initWindow app_init) = (None, s1)"
      and "setupDebugCallback e s1 = (None, s2)"
  shows "physicalDevice s2 = VK_NULL_HANDLE"
proof -
  have "physicalDevice (snd (setupDebugCallback e s1)) = physicalDevice s1"
    by (rule setupDebugCallback_frame)
  moreover have "physicalDevice (snd (createInstance e (initWindow app_init))) =
      physicalDevice (initWindow app_init)"
    by (rule createInstance_frame)
  ultimately show ?thesis using assms by (simp add: initWindow_def app_init_def)
qed

text \<open>
  On the sample machine the program starts, picks device 2 and its queue family 1, runs
  until the window closes, releases what it created in reverse order and exits with
  status 0.
\<close>

lemma main_sample_env:
  "main sample_env =
     Some (app_init\<lparr>physicalDevice := 2, graphicsQueue := Some 64,
        queried := [1, 1, 2, 2, 2, 2],
        calls := [VkCreateInstance [''VK_KHR_surface'', ''VK_EXT_debug_report'']
                    [''VK_LAYER_LUNARG_standard_validation''],
                  ProxyCreateDebugReportCallbackEXT 16, VkCreateDebugReportCallbackEXT 16,
                  VkCreateDevice 2 1 [''VK_LAYER_LUNARG_standard_validation''],
                  VkGetDeviceQueue 48 1,
                  VkDestroyDevice 48,
                  ProxyDestroyDebugReportCallbackEXT 16 32,
                  VkDestroyDebugReportCallbackEXT 16 32,
                  VkDestroyInstance 16],
        cout := [''available extensions:'', CHR 0x09 # ''VK_KHR_surface'',
                 CHR 0x09 # ''VK_EXT_debug_report'']\<rparr>, 0)"
proof -
  have fq: "findQueueFamilies (queueFamilyProperties sample_env) 2 = \<lparr>graphicsFamily = 1\<rparr>"
    using sample_families
    by (simp add: findQueueFamilies_def sample_env_def isComplete_def QueueFamilyIndices_init_def)
  have ml: "\<And>s. mainLoop sample_env 0 s = Some s"
    by (subst mainLoop.simps, simp add: sample_env_def,
        subst mainLoop.simps, simp add: sample_env_def,
        subst mainLoop.simps, simp add: sample_env_def)
  have en: "enableValidationLayers sample_env" "instanceExtensionProperties sample_env =
      [''VK_KHR_surface'', ''VK_EXT_debug_report'']"
    "instanceLayerProperties sample_env = [''VK_LAYER_LUNARG_standard_validation'']"
    "glfwRequiredInstanceExtensions sample_env = [''VK_KHR_surface'']"
    "vkCreateInstance_result sample_env = (VK_SUCCESS, 16)"
    "vkGetInstanceProcAddr sample_env = (\<lambda>inst name. True)"
    "vkCreateDebugReportCallbackEXT_result sample_env = (VK_SUCCESS, 32)"
    "physicalDevices sample_env = (\<lambda>inst. [1, 2, 3])"
    "vkCreateDevice_result sample_env = (\<lambda>device. (VK_SUCCESS, 48))"
    "vkGetDeviceQueue_result sample_env = (\<lambda>device index. 64)"
    by (simp_all add: sample_env_def)
  show ?thesis
    by (simp add: main_def run_def initVulkan_def and_then_def initWindow_def
        createInstance_def setupDebugCallback_def pickPhysicalDevice_def createLogicalDevice_def
        en fq ml sample_suitable isDeviceSuitable_call_eq findQueueFamilies_call_eq Let_def
        app_init_def checkValidationLayerSupport_iff validationLayers_def
        getRequiredExtensions_def on_member_replace on_member_destroy on_member_cleanup emit_def
        CreateDebugReportCallbackEXT_eq DestroyDebugReportCallbackEXT_eq app_destroy_unfold
        VK_SUCCESS_def VK_NULL_HANDLE_def EXIT_SUCCESS_def)
qed

end
